theory Spec2Isabelle
  imports
    Complex_Main
    "HOL-Library.Multiset"
    "HOL-Library.Sublist"
begin

section \<open>Data model of the index tuning subsystem\<close>

text \<open>
  The sources hold successive revisions of the index tuning classes of Hyrise: the
  selector \<^verbatim>\<open>IndexSelector::select_indices\<close> and the evaluator
  \<^verbatim>\<open>BaseIndexEvaluator::evaluate_indices\<close> of \<^verbatim>\<open>lib/tuning/\<close>, and the later
  \<^verbatim>\<open>BaseIndexEvaluator\<close>, \<^verbatim>\<open>IndexEvaluator\<close> and \<^verbatim>\<open>IndexChoice\<close> of \<^verbatim>\<open>lib/tuning/index/\<close>. The
  model follows the later names where the two differ.

  C++ \<^verbatim>\<open>float\<close> values (\<^verbatim>\<open>saved_work\<close>, \<^verbatim>\<open>memory_cost\<close>, the memory budget, the row counts of
  the statistics) are taken as exact real numbers: rounding, infinities and NaN are not
  modelled. All concrete inputs used below are integers below \<open>2 ^ 24\<close>, which \<^verbatim>\<open>float\<close>
  represents, adds and compares exactly.
\<close>

type_synonym ColumnID = nat

datatype ColumnIndexType = Invalid | GroupKey | CompositeGroupKey | AdaptiveRadixTree

text \<open>\<^verbatim>\<open>IndexInfo\<close>, an entry of \<^verbatim>\<open>Table::get_indexes()\<close>.\<close>

record IndexInfo =
  column_ids :: "ColumnID list"
  type :: ColumnIndexType

text \<open>\<^verbatim>\<open>ColumnRef\<close>: a table name and the ordered column ids of the index key.\<close>

record ColumnRef =
  table_name :: string
  column_ids :: "ColumnID list"

text \<open>
  Modelled from the spec: the predicate conditions and the scalar values of
  \<^verbatim>\<open>types.hpp\<close> and \<^verbatim>\<open>all_type_variant.hpp\<close>, which are not among the sources
  (``\<open>predicate_op\<close> in \<open>{=, <, \<le>, >, \<ge>, \<noteq>, BETWEEN, LIKE, IS NULL}\<close>'', ``tagged variant
  over the supported scalar types'').
\<close>

datatype PredicateCondition =
  Equals | NotEquals | LessThan | LessThanEquals | GreaterThan | GreaterThanEquals
  | Between | Like | IsNull

datatype AllTypeVariant = NullValue | IntValue int | StringValue string

text \<open>
  \<^verbatim>\<open>BaseIndexEvaluator::AccessRecord\<close>; \<^verbatim>\<open>query_frequency\<close> is a \<^verbatim>\<open>size_t\<close>, on which the code
  does no arithmetic before converting it to \<^verbatim>\<open>float\<close>.
\<close>

record AccessRecord =
  column_ref :: ColumnRef
  condition :: PredicateCondition
  compare_value :: AllTypeVariant
  query_frequency :: nat

text \<open>
  \<^verbatim>\<open>IndexChoice\<close>: the public members of the class, and the protected set \<^verbatim>\<open>_invalidates\<close>
  (a set of pointers to other choices, represented by the column and index type of the
  choice pointed to).
\<close>

record IndexChoice =
  column_ref :: ColumnRef
  saved_work :: real
  exists :: bool
  type :: ColumnIndexType
  memory_cost :: real
  invalidates :: "(ColumnRef \<times> ColumnIndexType) set"

text \<open>
  The selector belongs to the revision in which the class is still called
  \<^verbatim>\<open>IndexEvaluation\<close>, its member \<^verbatim>\<open>saved_work\<close> is still called \<^verbatim>\<open>desirablility\<close> and its
  member \<^verbatim>\<open>column\<close> holds a table name and a single column id.
\<close>

abbreviation desirablility :: "IndexChoice \<Rightarrow> real" where
  "desirablility e \<equiv> saved_work e"

text \<open>
  \<^verbatim>\<open>IndexOperation(table_name, column_id, create)\<close>: the column of the choice and whether
  the index is to be created (\<open>True\<close>) or deleted (\<open>False\<close>).
\<close>

record IndexOperation =
  column :: ColumnRef
  create :: bool

section \<open>The selector: \<^verbatim>\<open>IndexSelector::select_indices\<close>\<close>

text \<open>
  The inner \<^verbatim>\<open>while\<close> loop that walks \<^verbatim>\<open>sacrifice_index\<close> from \<^verbatim>\<open>worst_index\<close> towards
  \<^verbatim>\<open>best_index\<close>. The list argument is the range \<^verbatim>\<open>[sacrifice_index, best_index)\<close>; the
  result is \<^verbatim>\<open>(sacrificed_desirability, obtained_memory, n)\<close> with \<open>n\<close> the number of
  positions \<^verbatim>\<open>sacrifice_index\<close> has advanced.
\<close>

fun sacrifice :: "real \<Rightarrow> IndexChoice list \<Rightarrow> real \<Rightarrow> real \<Rightarrow> nat \<Rightarrow> real \<times> real \<times> nat" where
  "sacrifice required_memory [] sacrificed_desirability obtained_memory n =
     (sacrificed_desirability, obtained_memory, n)"
| "sacrifice required_memory (e # es) sacrificed_desirability obtained_memory n =
     (if obtained_memory < required_memory then
        (if exists e
         then sacrifice required_memory es (sacrificed_desirability + desirablility e)
                (obtained_memory + memory_cost e) (Suc n)
         else sacrifice required_memory es sacrificed_desirability obtained_memory (Suc n))
      else (sacrificed_desirability, obtained_memory, n))"

text \<open>
  A planned operation together with the choice it was planned for (what the
  \<^verbatim>\<open>LOG_DEBUG\<close> lines print); \<open>True\<close> is a create, \<open>False\<close> a delete.
\<close>

type_synonym planned = "IndexChoice \<times> bool"

text \<open>
  One iteration of the outer \<^verbatim>\<open>while (best_index >= worst_index)\<close> loop. The iterators
  delimit the part of the sorted vector still under consideration; the model carries that
  range \<^verbatim>\<open>[worst_index, best_index]\<close> as the list \<open>window\<close>, so \<^verbatim>\<open>*worst_index\<close> is its head
  and \<^verbatim>\<open>*best_index\<close> its last element, \<^verbatim>\<open>++worst_index\<close> is \<open>tl\<close> and \<^verbatim>\<open>--best_index\<close> is
  \<open>butlast\<close>. The result is the operations appended to \<^verbatim>\<open>_operations\<close>, the new range and
  the new \<^verbatim>\<open>memory_consumption\<close>.
\<close>

definition select_step ::
  "real \<Rightarrow> IndexChoice list \<Rightarrow> real \<Rightarrow> planned list \<times> IndexChoice list \<times> real" where
  "select_step memory_budget window memory_consumption =
     (let worst_index = hd window; best_index = last window in
      if desirablility worst_index < 0 \<and> - desirablility worst_index > desirablility best_index
      then
        (if exists worst_index
         then ([(worst_index, False)], tl window, memory_consumption - memory_cost worst_index)
         else ([], tl window, memory_consumption))
      else if exists best_index then ([], butlast window, memory_consumption)
      else
        (let required_memory = memory_cost best_index + memory_consumption - memory_budget in
         case sacrifice required_memory (butlast window) 0 0 0 of
           (sacrificed_desirability, obtained_memory, n) \<Rightarrow>
             if obtained_memory \<ge> required_memory
                \<and> sacrificed_desirability \<le> desirablility best_index
             then
               (map (\<lambda>e. (e, False)) (filter exists (take n window)) @ [(best_index, True)],
                drop n (butlast window),
                memory_consumption - sum_list (map memory_cost (filter exists (take n window)))
                  + memory_cost best_index)
             else ([], butlast window, memory_consumption)))"

lemma sacrifice_count:
  "sacrifice r xs sd om n = (sd', om', n') \<Longrightarrow> n \<le> n' \<and> n' \<le> n + length xs"
proof (induction xs arbitrary: sd om n)
  case Nil
  then show ?case by simp
next
  case (Cons e es)
  show ?case
  proof (cases "om < r")
    case False
    with Cons.prems show ?thesis by simp
  next
    case True
    show ?thesis
    proof (cases "exists e")
      case True
      with \<open>om < r\<close> Cons.prems
      have "sacrifice r es (sd + desirablility e) (om + memory_cost e) (Suc n) = (sd', om', n')"
        by simp
      from Cons.IH [OF this] show ?thesis by simp
    next
      case False
      with \<open>om < r\<close> Cons.prems have "sacrifice r es sd om (Suc n) = (sd', om', n')"
        by simp
      from Cons.IH [OF this] show ?thesis by simp
    qed
  qed
qed

lemma select_step_shrinks:
  assumes "window \<noteq> []" "select_step b window m = (ops, window', m')"
  shows "length window' < length window"
  using assms
  by (auto simp: select_step_def Let_def split: if_splits prod.splits)

text \<open>
  The outer loop: iterations are run until the range is empty, that is, until
  \<^verbatim>\<open>best_index < worst_index\<close>. Every iteration shortens the range.
\<close>

function select_loop :: "real \<Rightarrow> IndexChoice list \<Rightarrow> real \<Rightarrow> planned list" where
  "select_loop memory_budget window memory_consumption =
     (if window = [] then []
      else case select_step memory_budget window memory_consumption of
             (ops, window', memory_consumption') \<Rightarrow>
               ops @ select_loop memory_budget window' memory_consumption')"
  by pat_completeness auto
termination
proof (relation "measure (\<lambda>(b, window, m). length window)")
  show "wf (measure (\<lambda>(b, window, m). length window))" by simp
next
  fix memory_budget :: real and window memory_consumption ops rest window'
    and memory_consumption' :: real
  assume nonempty: "window \<noteq> []"
    and step: "(ops, rest) = select_step memory_budget window memory_consumption"
    and rest: "(window', memory_consumption') = rest"
  from step rest
  have "select_step memory_budget window memory_consumption =
        (ops, window', memory_consumption')"
    by simp
  from select_step_shrinks [OF nonempty this]
  show "((memory_budget, window', memory_consumption'),
         memory_budget, window, memory_consumption)
        \<in> measure (\<lambda>(b, window, m). length window)"
    by simp
qed

declare select_loop.simps [simp del]

text \<open>
  Modelled from the spec: \<^verbatim>\<open>IndexEvaluation::operator<\<close>, which \<^verbatim>\<open>std::sort\<close> uses and whose
  header is not among the sources, compares \<^verbatim>\<open>desirablility\<close> (the source comment reads
  ``sort evaluations by ascending desirability''). \<^verbatim>\<open>std::sort\<close> leaves the order of
  equivalent elements unspecified; the model keeps their input order.
\<close>

definition std_sort :: "IndexChoice list \<Rightarrow> IndexChoice list" where
  "std_sort evaluations = sort_key desirablility evaluations"

text \<open>
  \<^verbatim>\<open>select_indices\<close> up to the end of its loop: the early return on an empty vector, the
  sort, the memory consumption of the existing indexes, and the loop from
  \<^verbatim>\<open>worst_index = begin()\<close> and \<^verbatim>\<open>best_index = end() - 1\<close>.
\<close>

definition planned_operations :: "IndexChoice list \<Rightarrow> real \<Rightarrow> planned list" where
  "planned_operations evaluations memory_budget =
     (if length evaluations = 0 then []
      else
        let sorted = std_sort evaluations;
            memory_consumption = sum_list (map memory_cost (filter exists sorted))
        in select_loop memory_budget sorted memory_consumption)"

text \<open>The operations \<^verbatim>\<open>select_indices\<close> returns.\<close>

definition select_indices :: "IndexChoice list \<Rightarrow> real \<Rightarrow> IndexOperation list" where
  "select_indices evaluations memory_budget =
     map (\<lambda>(e, c). \<lparr>column = column_ref e, create = c\<rparr>)
       (planned_operations evaluations memory_budget)"


section \<open>Applying planned operations to the live index set\<close>






text \<open>
  The choice vector of the next pass: a deleted index is absent, a created one is now an
  \<open>exists = True\<close> choice, every other choice is unchanged.
\<close>

definition post_apply :: "IndexChoice list \<Rightarrow> planned list \<Rightarrow> IndexChoice list" where
  "post_apply evaluations ops =
     map (\<lambda>e. if (e, True) \<in> set ops then e\<lparr>exists := True\<rparr> else e)
       (filter (\<lambda>e. (e, False) \<notin> set ops) evaluations)"



text \<open>Sorted by ascending saved work, as the vector is after \<^verbatim>\<open>std::sort\<close>.\<close>

abbreviation ascending :: "IndexChoice list \<Rightarrow> bool" where
  "ascending window \<equiv> sorted_wrt (\<lambda>a b. saved_work a \<le> saved_work b) window"

subsection \<open>Concrete choice vectors\<close>

definition choice :: "ColumnID \<Rightarrow> ColumnIndexType \<Rightarrow> bool \<Rightarrow> real \<Rightarrow> real \<Rightarrow> IndexChoice" where
  "choice column_id index_type is_live work cost =
     \<lparr>column_ref = \<lparr>table_name = ''t'', column_ids = [column_id]\<rparr>,
      saved_work = work, exists = is_live, type = index_type, memory_cost = cost,
      invalidates = {}\<rparr>"



text \<open>
  Two live indexes and two candidates; used with a budget of 6 MiB, which the live
  indexes fill exactly.
\<close>

definition two_passes :: "IndexChoice list" where
  "two_passes =
     [choice 0 GroupKey True 3 1, choice 1 GroupKey True 4 5,
      choice 2 GroupKey False 5 1, choice 3 GroupKey False 6 5]"




section \<open>Failures\<close>

text \<open>
  The exceptions the tuning code can raise, and the undefined behaviour it can run into,
  as values. \<^verbatim>\<open>Assert\<close> and \<^verbatim>\<open>DebugAssert\<close> come from \<^verbatim>\<open>utils/assert.hpp\<close>, which is not among
  the sources: \<^verbatim>\<open>Assert\<close> always checks and throws \<^verbatim>\<open>std::logic_error\<close> with its message;
  \<^verbatim>\<open>DebugAssert\<close> does the same in a debug build and is compiled out otherwise. The build
  kind is the parameter \<open>is_debug\<close> of the functions that use \<^verbatim>\<open>DebugAssert\<close>.
\<close>

datatype error =
  bad_get
  | logic_error string
  | out_of_range
  | undefined_behaviour

section \<open>The plan walkers\<close>

text \<open>
  Modelled from the spec: \<^verbatim>\<open>AllParameterVariant\<close> (\<^verbatim>\<open>all_parameter_variant.hpp\<close> is not among
  the sources), the right side of a predicate: a literal value, a column, or a
  placeholder of a prepared statement.
\<close>

datatype AllParameterVariant =
  Literal AllTypeVariant
  | ColumnParameter ColumnID
  | ValuePlaceholder nat

text \<open>
  \<^verbatim>\<open>boost::get<AllTypeVariant>(v)\<close> on a reference: returns the held value, or throws
  \<^verbatim>\<open>boost::bad_get\<close> when the variant holds another alternative.
\<close>

fun boost_get_AllTypeVariant :: "AllParameterVariant \<Rightarrow> error + AllTypeVariant" where
  "boost_get_AllTypeVariant (Literal v) = Inr v"
| "boost_get_AllTypeVariant (ColumnParameter c) = Inl bad_get"
| "boost_get_AllTypeVariant (ValuePlaceholder i) = Inl bad_get"

subsection \<open>Logical plans\<close>

datatype LQPNodeType =
  Aggregate | Join | Limit | Predicate | Projection | Sort | StoredTable

text \<open>
  What the walker reads from the node \<^verbatim>\<open>lqp_ref.original_node()\<close> points to: its type and,
  for a \<^verbatim>\<open>StoredTableNode\<close>, the table name and the result of
  \<^verbatim>\<open>find_output_column_id(lqp_ref)\<close> on it. \<open>OriginalOther\<close> is a node of any other class; if
  its \<^verbatim>\<open>type()\<close> were \<^verbatim>\<open>StoredTable\<close> all the same, the cast to \<^verbatim>\<open>StoredTableNode\<close> would fail.
\<close>

datatype OriginalNode =
  OriginalStoredTable string "ColumnID option"
  | OriginalOther LQPNodeType

text \<open>\<^verbatim>\<open>LQPColumnReference\<close>; \<^verbatim>\<open>original_node()\<close> may be null.\<close>

datatype LQPColumnReference =
  LQPColumnReference (original_node: "OriginalNode option")

text \<open>
  \<^verbatim>\<open>AbstractLQPNode\<close> with its two inputs. \<open>PredicateNode\<close> carries \<^verbatim>\<open>column_reference()\<close>,
  \<^verbatim>\<open>predicate_condition()\<close> and \<^verbatim>\<open>value()\<close>; \<open>LQPNode\<close> is a node of any other class, with
  its \<^verbatim>\<open>type()\<close>.
\<close>

datatype AbstractLQPNode =
  PredicateNode LQPColumnReference PredicateCondition AllParameterVariant
    "AbstractLQPNode option" "AbstractLQPNode option"
  | StoredTableNode string
  | LQPNode LQPNodeType "AbstractLQPNode option" "AbstractLQPNode option"

fun left_input :: "AbstractLQPNode \<Rightarrow> AbstractLQPNode option" where
  "left_input (PredicateNode r c v l rt) = l"
| "left_input (StoredTableNode n) = None"
| "left_input (LQPNode t l rt) = l"

fun right_input :: "AbstractLQPNode \<Rightarrow> AbstractLQPNode option" where
  "right_input (PredicateNode r c v l rt) = rt"
| "right_input (StoredTableNode n) = None"
| "right_input (LQPNode t l rt) = rt"

fun lqp_type :: "AbstractLQPNode \<Rightarrow> LQPNodeType" where
  "lqp_type (PredicateNode r c v l rt) = Predicate"
| "lqp_type (StoredTableNode n) = StoredTable"
| "lqp_type (LQPNode t l rt) = t"

text \<open>The nodes pushed to the back of the queue: the left input, then the right one.\<close>

definition lqp_inputs :: "AbstractLQPNode \<Rightarrow> AbstractLQPNode list" where
  "lqp_inputs node =
     (case left_input node of None \<Rightarrow> [] | Some left_child \<Rightarrow> [left_child])
     @ (case right_input node of None \<Rightarrow> [] | Some right_child \<Rightarrow> [right_child])"

text \<open>
  The \<^verbatim>\<open>switch\<close> of \<^verbatim>\<open>_inspect_lqp_operator\<close> on one node: the access records it appends,
  or the failure. A node whose \<^verbatim>\<open>type()\<close> is \<^verbatim>\<open>Predicate\<close> but which is no \<^verbatim>\<open>PredicateNode\<close>
  fails the first \<^verbatim>\<open>DebugAssert\<close> (in a build without it, a null pointer is dereferenced).
\<close>

fun inspect_lqp_node ::
  "bool \<Rightarrow> nat \<Rightarrow> AbstractLQPNode \<Rightarrow> error + AccessRecord list" where
  "inspect_lqp_node is_debug frequency
       (PredicateNode lqp_ref predicate_condition val l rt) =
     (case original_node lqp_ref of
        None \<Rightarrow> Inr []
      | Some (OriginalOther t) \<Rightarrow>
          if t = StoredTable
          then (if is_debug
                then Inl (logic_error ''referenced node is not actually a StoredTableNode'')
                else Inl undefined_behaviour)
          else Inr []
      | Some (OriginalStoredTable name original_column_id) \<Rightarrow>
          (case original_column_id of
             None \<Rightarrow>
               if is_debug
               then Inl (logic_error ''Could not find column ID for LQPColumnReference'')
               else Inl undefined_behaviour
           | Some column_id \<Rightarrow>
               (case boost_get_AllTypeVariant val of
                  Inl e \<Rightarrow> Inl e
                | Inr v \<Rightarrow>
                    Inr [\<lparr>AccessRecord.column_ref =
                            \<lparr>table_name = name, column_ids = [column_id]\<rparr>,
                          condition = predicate_condition, compare_value = v,
                          query_frequency = frequency\<rparr>])))"
| "inspect_lqp_node is_debug frequency (StoredTableNode n) = Inr []"
| "inspect_lqp_node is_debug frequency (LQPNode t l rt) =
     (if t = Predicate
      then (if is_debug then Inl (logic_error ''LQP node is not actually a PredicateNode'')
            else Inl undefined_behaviour)
      else Inr [])"

lemma lqp_inputs_size:
  "sum_list (map (\<lambda>n. Suc (size n)) (lqp_inputs node)) \<le> size node"
  by (cases node) (auto simp: lqp_inputs_def split: option.splits)

text \<open>
  The \<^verbatim>\<open>while (!queue.empty())\<close> loop of \<^verbatim>\<open>_inspect_lqp_operator\<close>: the front node is popped,
  its inputs are pushed to the back, then its type is switched on. An exception leaves
  the loop; the result is \<^verbatim>\<open>_access_records\<close>.
\<close>

function inspect_lqp_queue ::
  "bool \<Rightarrow> nat \<Rightarrow> AbstractLQPNode list \<Rightarrow> AccessRecord list \<Rightarrow> error + AccessRecord list"
  where
  "inspect_lqp_queue is_debug frequency [] access_records = Inr access_records"
| "inspect_lqp_queue is_debug frequency (lqp_node # queue) access_records =
     (case inspect_lqp_node is_debug frequency lqp_node of
        Inl e \<Rightarrow> Inl e
      | Inr new_records \<Rightarrow>
          inspect_lqp_queue is_debug frequency (queue @ lqp_inputs lqp_node)
            (access_records @ new_records))"
  by pat_completeness auto
termination
  by (relation "measure (\<lambda>(d, f, queue, recs). sum_list (map (\<lambda>n. Suc (size n)) queue))")
     (auto simp: lqp_inputs_size less_Suc_eq_le)

definition inspect_lqp_operator ::
  "bool \<Rightarrow> AbstractLQPNode \<Rightarrow> nat \<Rightarrow> AccessRecord list \<Rightarrow> error + AccessRecord list" where
  "inspect_lqp_operator is_debug op frequency access_records =
     inspect_lqp_queue is_debug frequency [op] access_records"

subsection \<open>Physical plans\<close>

text \<open>
  \<^verbatim>\<open>AbstractOperator\<close>: the operator classes the walkers cast to, and \<open>Operator\<close> for any
  other class. A \<^verbatim>\<open>TableScan\<close> carries \<^verbatim>\<open>left_column_id()\<close>, \<^verbatim>\<open>predicate_condition()\<close> and
  \<^verbatim>\<open>right_parameter()\<close>.
\<close>

datatype AbstractOperator =
  GetTable string
  | Validate "AbstractOperator option"
  | TableScan "AbstractOperator option" ColumnID PredicateCondition AllParameterVariant
  | Operator "AbstractOperator option" "AbstractOperator option"

fun input_left :: "AbstractOperator \<Rightarrow> AbstractOperator option" where
  "input_left (GetTable n) = None"
| "input_left (Validate l) = l"
| "input_left (TableScan l c p v) = l"
| "input_left (Operator l r) = l"

fun input_right :: "AbstractOperator \<Rightarrow> AbstractOperator option" where
  "input_right (GetTable n) = None"
| "input_right (Validate l) = None"
| "input_right (TableScan l c p v) = None"
| "input_right (Operator l r) = r"

definition pqp_inputs :: "AbstractOperator \<Rightarrow> AbstractOperator list" where
  "pqp_inputs node =
     (case input_left node of None \<Rightarrow> [] | Some l \<Rightarrow> [l])
     @ (case input_right node of None \<Rightarrow> [] | Some r \<Rightarrow> [r])"

text \<open>
  The access record of a scan on a \<^verbatim>\<open>GetTable\<close>: \<^verbatim>\<open>emplace_back(table_name, column_id,
  query_frequency)\<close>, then the condition, then the compare value, whose \<^verbatim>\<open>boost::get\<close> may
  throw.
\<close>

definition scan_record ::
  "string \<Rightarrow> ColumnID \<Rightarrow> PredicateCondition \<Rightarrow> AllParameterVariant \<Rightarrow> nat
   \<Rightarrow> error + AccessRecord list" where
  "scan_record name column_id predicate_condition right_parameter frequency =
     (case boost_get_AllTypeVariant right_parameter of
        Inl e \<Rightarrow> Inl e
      | Inr v \<Rightarrow>
          Inr [\<lparr>AccessRecord.column_ref = \<lparr>table_name = name, column_ids = [column_id]\<rparr>,
                condition = predicate_condition, compare_value = v,
                query_frequency = frequency\<rparr>])"

text \<open>
  \<^verbatim>\<open>_inspect_pqp_operator\<close> (\<^verbatim>\<open>tuning/index/base_index_evaluator.cpp\<close>) on one node: the
  records it appends, or the failure; the inputs of a \<^verbatim>\<open>TableScan\<close> are not pushed.
\<close>

fun inspect_pqp_node :: "bool \<Rightarrow> nat \<Rightarrow> AbstractOperator \<Rightarrow> error + AccessRecord list" where
  "inspect_pqp_node is_debug frequency (TableScan l column_id predicate_condition right_parameter) =
     (case l of
        Some (Validate v) \<Rightarrow>
          if is_debug
          then Inl (logic_error
            ''Validation nodes are not supported. Please run the pipeline without MVCC columns.'')
          else Inr []
      | Some (GetTable name) \<Rightarrow>
          scan_record name column_id predicate_condition right_parameter frequency
      | _ \<Rightarrow> Inr [])"
| "inspect_pqp_node is_debug frequency node = Inr []"

fun pushed_pqp :: "AbstractOperator \<Rightarrow> AbstractOperator list" where
  "pushed_pqp (TableScan l c p v) = []"
| "pushed_pqp node = pqp_inputs node"

lemma pushed_pqp_size:
  "sum_list (map (\<lambda>n. Suc (size n)) (pushed_pqp node)) \<le> size node"
  by (cases node) (auto simp: pqp_inputs_def split: option.splits)

function inspect_pqp_queue ::
  "bool \<Rightarrow> nat \<Rightarrow> AbstractOperator list \<Rightarrow> AccessRecord list \<Rightarrow> error + AccessRecord list"
  where
  "inspect_pqp_queue is_debug frequency [] access_records = Inr access_records"
| "inspect_pqp_queue is_debug frequency (node # queue) access_records =
     (case inspect_pqp_node is_debug frequency node of
        Inl e \<Rightarrow> Inl e
      | Inr new_records \<Rightarrow>
          inspect_pqp_queue is_debug frequency (queue @ pushed_pqp node)
            (access_records @ new_records))"
  by pat_completeness auto
termination
  by (relation "measure (\<lambda>(d, f, queue, recs). sum_list (map (\<lambda>n. Suc (size n)) queue))")
     (auto simp: pushed_pqp_size less_Suc_eq_le)

definition inspect_pqp_operator ::
  "bool \<Rightarrow> AbstractOperator \<Rightarrow> nat \<Rightarrow> AccessRecord list \<Rightarrow> error + AccessRecord list" where
  "inspect_pqp_operator is_debug op frequency access_records =
     inspect_pqp_queue is_debug frequency [op] access_records"

text \<open>
  \<^verbatim>\<open>_inspect_operator\<close> of the earlier revision (\<^verbatim>\<open>tuning/base_index_evaluator.cpp\<close>) on one
  node: it records a scan only when the scan's left input is a \<^verbatim>\<open>Validate\<close> on a
  \<^verbatim>\<open>GetTable\<close>.
\<close>

fun inspect_node :: "nat \<Rightarrow> AbstractOperator \<Rightarrow> error + AccessRecord list" where
  "inspect_node frequency (TableScan l column_id predicate_condition right_parameter) =
     (case l of
        Some (Validate (Some (GetTable name))) \<Rightarrow>
          scan_record name column_id predicate_condition right_parameter frequency
      | _ \<Rightarrow> Inr [])"
| "inspect_node frequency node = Inr []"

fun is_TableScan :: "AbstractOperator \<Rightarrow> bool" where
  "is_TableScan (TableScan l c p v) = True"
| "is_TableScan node = False"

text \<open>
  Its loop pushes the inputs of \<^verbatim>\<open>op\<close>, the root, whatever node was popped, so it need
  not terminate: not returning is the value \<open>None\<close>.
\<close>

partial_function (option) inspect_operator_queue ::
  "AbstractOperator \<Rightarrow> nat \<Rightarrow> AbstractOperator list \<Rightarrow> AccessRecord list
   \<Rightarrow> (error + AccessRecord list) option" where
  "inspect_operator_queue op frequency queue access_records =
     (case queue of
        [] \<Rightarrow> Some (Inr access_records)
      | node # rest \<Rightarrow>
          (case inspect_node frequency node of
             Inl e \<Rightarrow> Some (Inl e)
           | Inr new_records \<Rightarrow>
               inspect_operator_queue op frequency
                 (if is_TableScan node then rest else rest @ pqp_inputs op)
                 (access_records @ new_records)))"

definition inspect_operator ::
  "AbstractOperator \<Rightarrow> nat \<Rightarrow> AccessRecord list \<Rightarrow> (error + AccessRecord list) option" where
  "inspect_operator op frequency access_records =
     inspect_operator_queue op frequency [op] access_records"

section \<open>The query plan cache\<close>

text \<open>
  \<^verbatim>\<open>SQLQueryCache::cache()\<close> returns an \<^verbatim>\<open>AbstractCache\<close>; the evaluators \<^verbatim>\<open>dynamic_cast\<close> it to
  \<^verbatim>\<open>GDFSCache\<close>, whose \<^verbatim>\<open>queue()\<close> they iterate from \<^verbatim>\<open>ordered_begin()\<close> to \<^verbatim>\<open>ordered_end()\<close>.
  The list of a \<open>GDFSCache\<close> is that iteration order. \<open>OtherCache\<close> is a cache of any other
  class.
\<close>

record 'plan GDFSCacheEntry =
  key :: string
  "value" :: 'plan
  frequency :: nat
  priority :: real

datatype 'plan AbstractCache =
  GDFSCache "'plan GDFSCacheEntry list"
  | OtherCache

text \<open>The \<^verbatim>\<open>for\<close> loop over the cache entries of the logical-plan evaluator.\<close>

fun inspect_lqp_entries ::
  "bool \<Rightarrow> AbstractLQPNode GDFSCacheEntry list \<Rightarrow> AccessRecord list
   \<Rightarrow> error + AccessRecord list" where
  "inspect_lqp_entries is_debug [] access_records = Inr access_records"
| "inspect_lqp_entries is_debug (entry # entries) access_records =
     (case inspect_lqp_operator is_debug (value entry) (frequency entry) access_records of
        Inl e \<Rightarrow> Inl e
      | Inr access_records' \<Rightarrow> inspect_lqp_entries is_debug entries access_records')"

text \<open>
  \<^verbatim>\<open>_inspect_query_cache\<close> of \<^verbatim>\<open>tuning/index/base_index_evaluator.cpp\<close>. The result is
  \<^verbatim>\<open>_access_records\<close> (cleared first) and the messages passed to \<^verbatim>\<open>LOG_WARN\<close>.
\<close>

definition inspect_query_cache ::
  "bool \<Rightarrow> AbstractLQPNode AbstractCache \<Rightarrow> error + (AccessRecord list \<times> string list)" where
  "inspect_query_cache is_debug lqp_cache =
     (case lqp_cache of
        OtherCache \<Rightarrow>
          Inr ([], [''BaseIndexEvaluator can only analyze GDFSCache instances! Evaluations may be useless...''])
      | GDFSCache fibonacci_heap \<Rightarrow>
          (case inspect_lqp_entries is_debug fibonacci_heap [] of
             Inl e \<Rightarrow> Inl e
           | Inr access_records \<Rightarrow>
               Inr (access_records,
                    if length fibonacci_heap = 0
                    then [''There are no logical query plans in the cache. Make sure that logical query plans get cached!'']
                    else [])))"

text \<open>
  \<^verbatim>\<open>_inspect_query_cache\<close> of the earlier revision (\<^verbatim>\<open>tuning/base_index_evaluator.cpp\<close>): the
  cache holds \<^verbatim>\<open>SQLQueryPlan\<close>s, each a list of operator trees (\<^verbatim>\<open>tree_roots()\<close>), and a
  cache that is no \<^verbatim>\<open>GDFSCache\<close> fails the \<^verbatim>\<open>Assert\<close>.
\<close>

type_synonym SQLQueryPlan = "AbstractOperator list"

fun inspect_tree_roots ::
  "AbstractOperator list \<Rightarrow> nat \<Rightarrow> AccessRecord list \<Rightarrow> (error + AccessRecord list) option"
  where
  "inspect_tree_roots [] freq access_records = Some (Inr access_records)"
| "inspect_tree_roots (operator_tree # trees) freq access_records =
     (case inspect_operator operator_tree freq access_records of
        None \<Rightarrow> None
      | Some (Inl e) \<Rightarrow> Some (Inl e)
      | Some (Inr access_records') \<Rightarrow> inspect_tree_roots trees freq access_records')"

fun inspect_plan_entries ::
  "SQLQueryPlan GDFSCacheEntry list \<Rightarrow> AccessRecord list
   \<Rightarrow> (error + AccessRecord list) option" where
  "inspect_plan_entries [] access_records = Some (Inr access_records)"
| "inspect_plan_entries (entry # entries) access_records =
     (case inspect_tree_roots (value entry) (frequency entry) access_records of
        None \<Rightarrow> None
      | Some (Inl e) \<Rightarrow> Some (Inl e)
      | Some (Inr access_records') \<Rightarrow> inspect_plan_entries entries access_records')"

definition inspect_query_cache_plans ::
  "SQLQueryPlan AbstractCache \<Rightarrow> (error + AccessRecord list) option" where
  "inspect_query_cache_plans cache =
     (case cache of
        OtherCache \<Rightarrow> Some (Inl (logic_error ''Expected GDFS Cache''))
      | GDFSCache fibonacci_heap \<Rightarrow> inspect_plan_entries fibonacci_heap [])"

section \<open>Storage and statistics\<close>

text \<open>
  Modelled from the spec: the storage manager, the tables and their statistics
  (\<^verbatim>\<open>storage/storage_manager.hpp\<close>, \<^verbatim>\<open>storage/table.hpp\<close>, \<^verbatim>\<open>optimizer/table_statistics.hpp\<close>
  are not among the sources), reduced to the operations the evaluator calls. Row counts
  of the statistics are \<^verbatim>\<open>float\<close>s, taken as reals; \<open>predicate_row_count\<close> is
  \<^verbatim>\<open>predicate_statistics(column_id, condition, value)->row_count()\<close>, the predicted number
  of matching rows; \<open>distinct_counts\<close> holds \<^verbatim>\<open>distinct_count()\<close> of each entry of
  \<^verbatim>\<open>column_statistics()\<close>. \<open>index_memory\<close> of a chunk is \<^verbatim>\<open>memory_consumption()\<close> of the index
  \<^verbatim>\<open>get_index(type, column_ids)\<close> finds, \<open>None\<close> when it finds none. Counts are natural
  numbers; \<^verbatim>\<open>uintptr_t\<close> arithmetic is written out modulo \<open>2 ^ 64\<close>.
\<close>

datatype DataType = NullType | IntType | LongType | FloatType | DoubleType | StringType

record TableStatistics =
  row_count :: real
  predicate_row_count :: "ColumnID \<Rightarrow> PredicateCondition \<Rightarrow> AllTypeVariant \<Rightarrow> real"
  distinct_counts :: "nat list"

record Chunk =
  index_memory :: "ColumnIndexType \<Rightarrow> ColumnID list \<Rightarrow> nat option"

record Table =
  table_statistics :: TableStatistics
  row_count :: nat
  chunks :: "Chunk list"
  column_data_types :: "DataType list"
  get_indexes :: "IndexInfo list"

type_synonym StorageManager = "(string \<times> Table) list"

definition table_names :: "StorageManager \<Rightarrow> string list" where
  "table_names storage = map fst storage"

text \<open>\<^verbatim>\<open>get_table\<close> asserts that the table exists.\<close>

definition get_table :: "StorageManager \<Rightarrow> string \<Rightarrow> error + Table" where
  "get_table storage name =
     (case map_of storage name of
        None \<Rightarrow> Inl (logic_error ''No such table'')
      | Some table \<Rightarrow> Inr table)"

definition chunk_count :: "Table \<Rightarrow> nat" where
  "chunk_count table = length (chunks table)"

text \<open>
  \<^verbatim>\<open>sizeof(ColumnDataType)\<close> of the type \<^verbatim>\<open>resolve_data_type\<close> yields, on a 64-bit build with
  libstdc++ (where \<^verbatim>\<open>sizeof(std::string)\<close> is 32); \<^verbatim>\<open>resolve_data_type\<close> fails on the null
  type.
\<close>

fun sizeof_ColumnDataType :: "DataType \<Rightarrow> error + nat" where
  "sizeof_ColumnDataType NullType = Inl (logic_error ''unknown data type'')"
| "sizeof_ColumnDataType IntType = Inr 4"
| "sizeof_ColumnDataType LongType = Inr 8"
| "sizeof_ColumnDataType FloatType = Inr 4"
| "sizeof_ColumnDataType DoubleType = Inr 8"
| "sizeof_ColumnDataType StringType = Inr 32"

text \<open>
  The index memory model \<^verbatim>\<open>BaseIndex::predict_memory_consumption(type, row_count,
  value_count, value_bytes)\<close> is not among the sources and is a parameter.
\<close>

type_synonym memory_model = "ColumnIndexType \<Rightarrow> nat \<Rightarrow> nat \<Rightarrow> nat \<Rightarrow> nat"

section \<open>The evaluator\<close>

subsection \<open>\<^verbatim>\<open>IndexEvaluator\<close>\<close>

text \<open>\<^verbatim>\<open>_saved_work\<close> is a \<^verbatim>\<open>std::map<ColumnRef, float>\<close>; \<^verbatim>\<open>_setup\<close> clears it.\<close>

type_synonym saved_work_map = "ColumnRef \<rightharpoonup> real"

definition evaluator_setup :: saved_work_map where
  "evaluator_setup = Map.empty"

text \<open>
  \<^verbatim>\<open>_process_access_record\<close>. \<^verbatim>\<open>column_ids[0]\<close> on an empty vector is undefined behaviour.
\<close>

definition process_access_record ::
  "StorageManager \<Rightarrow> saved_work_map \<Rightarrow> AccessRecord \<Rightarrow> error + saved_work_map" where
  "process_access_record storage saved record =
     (case get_table storage (table_name (AccessRecord.column_ref record)) of
        Inl e \<Rightarrow> Inl e
      | Inr table \<Rightarrow>
          (case column_ids (AccessRecord.column_ref record) of
             [] \<Rightarrow> Inl undefined_behaviour
           | column_id # others \<Rightarrow>
               (let statistics = table_statistics table;
                    total_rows = TableStatistics.row_count statistics;
                    match_rows = predicate_row_count statistics column_id
                                   (condition record) (compare_value record);
                    unscanned_rows = total_rows - match_rows;
                    work = unscanned_rows * real (query_frequency record)
                in case saved (AccessRecord.column_ref record) of
                     Some accumulated \<Rightarrow>
                       Inr (saved(AccessRecord.column_ref record \<mapsto> accumulated + work))
                   | None \<Rightarrow> Inr (saved(AccessRecord.column_ref record \<mapsto> work)))))"

definition propose_index_type :: "IndexChoice \<Rightarrow> ColumnIndexType" where
  "propose_index_type index_evaluation = GroupKey"

text \<open>
  The loop ``sum up column data type widths'' of \<^verbatim>\<open>_predict_memory_cost\<close>; a column id the
  table does not have is a failure.
\<close>

fun sum_value_bytes :: "Table \<Rightarrow> ColumnID list \<Rightarrow> nat \<Rightarrow> error + nat" where
  "sum_value_bytes table [] value_bytes = Inr value_bytes"
| "sum_value_bytes table (column_id # others) value_bytes =
     (if column_id < length (column_data_types table)
      then (case sizeof_ColumnDataType (column_data_types table ! column_id) of
              Inl e \<Rightarrow> Inl e
            | Inr width \<Rightarrow> sum_value_bytes table others (value_bytes + width))
      else Inl out_of_range)"

text \<open>
  \<^verbatim>\<open>_predict_memory_cost\<close>. \<^verbatim>\<open>column_statistics().at(i)\<close> throws when \<open>i\<close> is out of range;
  dividing by a chunk count of zero is undefined behaviour. Both quotients reach the
  memory model as integers rounded down, and the product is a \<^verbatim>\<open>uintptr_t\<close>.
\<close>

definition predict_memory_cost ::
  "StorageManager \<Rightarrow> memory_model \<Rightarrow> IndexChoice \<Rightarrow> error + nat" where
  "predict_memory_cost storage predict_memory_consumption index_evaluation =
     (case get_table storage (table_name (column_ref index_evaluation)) of
        Inl e \<Rightarrow> Inl e
      | Inr table \<Rightarrow>
          (case column_ids (column_ref index_evaluation) of
             [] \<Rightarrow> Inl undefined_behaviour
           | column_id # others \<Rightarrow>
               if \<not> column_id < length (distinct_counts (table_statistics table))
               then Inl out_of_range
               else
                 (let distinct_value_count =
                        distinct_counts (table_statistics table) ! column_id
                  in case sum_value_bytes table (column_ids (column_ref index_evaluation)) 0 of
                       Inl e \<Rightarrow> Inl e
                     | Inr value_bytes \<Rightarrow>
                         if chunk_count table = 0 then Inl undefined_behaviour
                         else
                           (let chunk_rows = row_count table div chunk_count table;
                                chunk_distinct_values =
                                  distinct_value_count div chunk_count table;
                                memory_cost_per_chunk =
                                  predict_memory_consumption (type index_evaluation)
                                    chunk_rows chunk_distinct_values value_bytes
                            in Inr ((memory_cost_per_chunk * chunk_count table)
                                     mod 2 ^ 64)))))"

definition get_saved_work :: "saved_work_map \<Rightarrow> IndexChoice \<Rightarrow> real" where
  "get_saved_work saved index_evaluation =
     (case saved (column_ref index_evaluation) of
        Some work \<Rightarrow> work
      | None \<Rightarrow> 0)"

subsection \<open>\<^verbatim>\<open>BaseIndexEvaluator\<close>\<close>

text \<open>
  \<^verbatim>\<open>_new_indexes\<close> is a \<^verbatim>\<open>std::set<ColumnRef>\<close>, kept here as a list without duplicates in
  order of first insertion; the order in which the set is iterated (by the comparison of
  \<^verbatim>\<open>column_ref.hpp\<close>, which is not among the sources) is not modelled.
\<close>

definition insert_new :: "ColumnRef \<Rightarrow> ColumnRef list \<Rightarrow> ColumnRef list" where
  "insert_new c new_indexes = (if c \<in> set new_indexes then new_indexes else new_indexes @ [c])"

text \<open>
  \<^verbatim>\<open>_aggregate_access_records\<close>, after \<^verbatim>\<open>_new_indexes.clear()\<close>: the loop over the access
  records, with the hook \<^verbatim>\<open>_process_access_record\<close> of \<^verbatim>\<open>IndexEvaluator\<close>.
\<close>

fun aggregate_loop ::
  "StorageManager \<Rightarrow> AccessRecord list \<Rightarrow> ColumnRef list \<times> saved_work_map
   \<Rightarrow> error + (ColumnRef list \<times> saved_work_map)" where
  "aggregate_loop storage [] state = Inr state"
| "aggregate_loop storage (access_record # records) (new_indexes, saved) =
     (case process_access_record storage saved access_record of
        Inl e \<Rightarrow> Inl e
      | Inr saved' \<Rightarrow>
          aggregate_loop storage records
            (insert_new (AccessRecord.column_ref access_record) new_indexes, saved'))"

definition aggregate_access_records ::
  "StorageManager \<Rightarrow> AccessRecord list \<Rightarrow> saved_work_map
   \<Rightarrow> error + (ColumnRef list \<times> saved_work_map)" where
  "aggregate_access_records storage access_records saved =
     aggregate_loop storage access_records ([], saved)"

text \<open>The constructor \<^verbatim>\<open>IndexChoice(column_ref, exists)\<close>.\<close>

definition new_IndexChoice :: "ColumnRef \<Rightarrow> bool \<Rightarrow> IndexChoice" where
  "new_IndexChoice c is_live =
     \<lparr>column_ref = c, saved_work = 0, exists = is_live, type = Invalid, memory_cost = 0,
      invalidates = {}\<rparr>"

text \<open>
  \<^verbatim>\<open>_add_existing_indexes\<close>: one choice per index of each table, each erased from
  \<^verbatim>\<open>_new_indexes\<close>. (The first chunk the source fetches per table is not used.)
\<close>

fun add_table_indexes ::
  "string \<Rightarrow> IndexInfo list \<Rightarrow> IndexChoice list \<times> ColumnRef list
   \<Rightarrow> IndexChoice list \<times> ColumnRef list" where
  "add_table_indexes name [] state = state"
| "add_table_indexes name (index_info # infos) (choices, new_indexes) =
     add_table_indexes name infos
       (choices @ [(new_IndexChoice
                      \<lparr>table_name = name, column_ids = IndexInfo.column_ids index_info\<rparr> True)
                    \<lparr>type := IndexInfo.type index_info\<rparr>],
        removeAll \<lparr>table_name = name, column_ids = IndexInfo.column_ids index_info\<rparr>
          new_indexes)"

fun add_existing_indexes ::
  "StorageManager \<Rightarrow> string list \<Rightarrow> IndexChoice list \<times> ColumnRef list
   \<Rightarrow> error + (IndexChoice list \<times> ColumnRef list)" where
  "add_existing_indexes storage [] state = Inr state"
| "add_existing_indexes storage (name # names) state =
     (case get_table storage name of
        Inl e \<Rightarrow> Inl e
      | Inr table \<Rightarrow>
          add_existing_indexes storage names
            (add_table_indexes name (get_indexes table) state))"

definition add_new_indexes :: "ColumnRef list \<Rightarrow> IndexChoice list \<Rightarrow> IndexChoice list" where
  "add_new_indexes new_indexes choices =
     choices @ map (\<lambda>c. new_IndexChoice c False) new_indexes"

text \<open>\<^verbatim>\<open>_existing_memory_cost\<close>: the sum over the chunks that hold the index.\<close>

fun sum_index_memory ::
  "Chunk list \<Rightarrow> ColumnIndexType \<Rightarrow> ColumnID list \<Rightarrow> nat \<Rightarrow> nat" where
  "sum_index_memory [] index_type ids memory = memory"
| "sum_index_memory (chunk # others) index_type ids memory =
     (case index_memory chunk index_type ids of
        None \<Rightarrow> sum_index_memory others index_type ids memory
      | Some consumption \<Rightarrow>
          sum_index_memory others index_type ids ((memory + consumption) mod 2 ^ 64))"

definition existing_memory_cost :: "StorageManager \<Rightarrow> IndexChoice \<Rightarrow> error + nat" where
  "existing_memory_cost storage index_choice =
     (case get_table storage (table_name (column_ref index_choice)) of
        Inl e \<Rightarrow> Inl e
      | Inr table \<Rightarrow>
          Inr (sum_index_memory (chunks table) (type index_choice)
                 (column_ids (column_ref index_choice)) 0))"

text \<open>
  The loop ``Evaluate'' of \<^verbatim>\<open>evaluate\<close>, with the hooks of \<^verbatim>\<open>IndexEvaluator\<close>
  (\<^verbatim>\<open>_calculate_saved_work\<close> is its \<^verbatim>\<open>_get_saved_work\<close>).
\<close>

definition evaluate_choice ::
  "StorageManager \<Rightarrow> memory_model \<Rightarrow> saved_work_map \<Rightarrow> IndexChoice \<Rightarrow> error + IndexChoice"
  where
  "evaluate_choice storage model saved index_choice =
     (case
        (if exists index_choice
         then (case existing_memory_cost storage index_choice of
                 Inl e \<Rightarrow> Inl e
               | Inr cost \<Rightarrow> Inr (index_choice\<lparr>memory_cost := real cost\<rparr>))
         else
           (let proposed = index_choice\<lparr>type := propose_index_type index_choice\<rparr>
            in case predict_memory_cost storage model proposed of
                 Inl e \<Rightarrow> Inl e
               | Inr cost \<Rightarrow> Inr (proposed\<lparr>memory_cost := real cost\<rparr>)))
      of
        Inl e \<Rightarrow> Inl e
      | Inr costed \<Rightarrow> Inr (costed\<lparr>saved_work := get_saved_work saved costed\<rparr>))"

fun evaluate_choices ::
  "StorageManager \<Rightarrow> memory_model \<Rightarrow> saved_work_map \<Rightarrow> IndexChoice list
   \<Rightarrow> error + IndexChoice list" where
  "evaluate_choices storage model saved [] = Inr []"
| "evaluate_choices storage model saved (index_choice # others) =
     (case evaluate_choice storage model saved index_choice of
        Inl e \<Rightarrow> Inl e
      | Inr evaluated \<Rightarrow>
          (case evaluate_choices storage model saved others of
             Inl e \<Rightarrow> Inl e
           | Inr rest \<Rightarrow> Inr (evaluated # rest)))"

text \<open>
  \<^verbatim>\<open>evaluate\<close>: set up, scan the query cache, aggregate, add the existing and the new
  indexes, evaluate. The result is the choices appended to \<^verbatim>\<open>choices\<close> and the warnings
  logged.
\<close>

definition evaluate ::
  "bool \<Rightarrow> StorageManager \<Rightarrow> memory_model \<Rightarrow> AbstractLQPNode AbstractCache
   \<Rightarrow> error + (IndexChoice list \<times> string list)" where
  "evaluate is_debug storage model lqp_cache =
     (case inspect_query_cache is_debug lqp_cache of
        Inl e \<Rightarrow> Inl e
      | Inr (access_records, warnings) \<Rightarrow>
          (case aggregate_access_records storage access_records evaluator_setup of
             Inl e \<Rightarrow> Inl e
           | Inr (new_indexes, saved) \<Rightarrow>
               (case add_existing_indexes storage (table_names storage) ([], new_indexes) of
                  Inl e \<Rightarrow> Inl e
                | Inr (existing, new_indexes') \<Rightarrow>
                    (case evaluate_choices storage model saved
                            (add_new_indexes new_indexes' existing) of
                       Inl e \<Rightarrow> Inl e
                     | Inr choices \<Rightarrow> Inr (choices, warnings)))))"

text \<open>
  Modelled from the spec: the tuning pass \<^verbatim>\<open>IndexTuner::execute\<close>, which is not among the
  sources (``invokes Evaluator then Selector''), up to the operations it would apply.
\<close>

definition tuning_pass ::
  "bool \<Rightarrow> StorageManager \<Rightarrow> memory_model \<Rightarrow> AbstractLQPNode AbstractCache \<Rightarrow> real
   \<Rightarrow> error + (IndexOperation list \<times> string list)" where
  "tuning_pass is_debug storage model lqp_cache memory_budget =
     (case evaluate is_debug storage model lqp_cache of
        Inl e \<Rightarrow> Inl e
      | Inr (choices, warnings) \<Rightarrow> Inr (select_indices choices memory_budget, warnings))"

section \<open>Notions used to state the properties of the evaluator\<close>






text \<open>A choice for a live index of a table of the storage manager.\<close>

definition live_choice :: "StorageManager \<Rightarrow> IndexChoice \<Rightarrow> bool" where
  "live_choice storage c \<longleftrightarrow>
     exists c \<and> table_name (column_ref c) \<in> set (table_names storage)"

section \<open>Concrete plans, caches and tables\<close>

text \<open>
  The logical plan of \<^verbatim>\<open>SELECT * FROM t WHERE col_0 = col_1\<close>: a projection over a predicate
  whose column reference resolves to column 0 of the stored table \<open>t\<close> and whose right
  side is a column.
\<close>

definition column_comparison :: AbstractLQPNode where
  "column_comparison =
     LQPNode Projection
       (Some (PredicateNode (LQPColumnReference (Some (OriginalStoredTable ''t'' (Some 0))))
                Equals (ColumnParameter 1) (Some (StoredTableNode ''t'')) None))
       None"

text \<open>
  The physical plan of \<^verbatim>\<open>SELECT * FROM t WHERE col_0 = 4\<close> with MVCC: a scan whose left
  input is a \<^verbatim>\<open>Validate\<close> on a \<^verbatim>\<open>GetTable\<close>.
\<close>

definition mvcc_scan :: AbstractOperator where
  "mvcc_scan =
     TableScan (Some (Validate (Some (GetTable ''t'')))) 0 Equals (Literal (IntValue 4))"

text \<open>
  An instance of the memory model parameter, in the shape of a group-key index: four
  bytes per row and eight bytes per distinct value.
\<close>

definition per_row_and_value :: memory_model where
  "per_row_and_value index_type rows distinct_values value_bytes =
     rows * 4 + distinct_values * 8"

text \<open>
  A table \<open>t\<close> of 100 rows in 10 chunks with one \<^verbatim>\<open>int\<close> column of 3 distinct values and no
  index, and a candidate on that column.
\<close>

definition few_distinct :: StorageManager where
  "few_distinct =
     [(''t'',
       \<lparr>table_statistics =
          \<lparr>TableStatistics.row_count = 100,
           predicate_row_count = (\<lambda>column_id predicate_condition v. 1),
           distinct_counts = [3]\<rparr>,
        row_count = 100,
        chunks = replicate 10 \<lparr>index_memory = (\<lambda>index_type ids. None)\<rparr>,
        column_data_types = [IntType],
        get_indexes = []\<rparr>)]"

definition candidate :: IndexChoice where
  "candidate = (new_IndexChoice \<lparr>table_name = ''t'', column_ids = [0]\<rparr> False)\<lparr>type := GroupKey\<rparr>"


section \<open>Properties of the selector\<close>

subsection \<open>One iteration of the selection loop\<close>

lemma sacrifice_sums:
  "sacrifice r xs sd om n = (sd', om', n') \<Longrightarrow>
     sd' = sd + sum_list (map saved_work (filter exists (take (n' - n) xs)))
   \<and> om' = om + sum_list (map memory_cost (filter exists (take (n' - n) xs)))"
proof (induction xs arbitrary: sd om n)
  case Nil
  then show ?case by simp
next
  case (Cons e es)
  show ?case
  proof (cases "om < r")
    case False
    with Cons.prems show ?thesis by simp
  next
    case True
    show ?thesis
    proof (cases "exists e")
      case True
      with \<open>om < r\<close> Cons.prems
      have call: "sacrifice r es (sd + desirablility e) (om + memory_cost e) (Suc n) = (sd', om', n')"
        by simp
      from sacrifice_count [OF call] have "n' - n = Suc (n' - Suc n)" by arith
      with Cons.IH [OF call] True show ?thesis by simp
    next
      case False
      with \<open>om < r\<close> Cons.prems have call: "sacrifice r es sd om (Suc n) = (sd', om', n')"
        by simp
      from sacrifice_count [OF call] have "n' - n = Suc (n' - Suc n)" by arith
      with Cons.IH [OF call] False show ?thesis by simp
    qed
  qed
qed

lemma select_step_cases:
  assumes "window \<noteq> []" and "select_step b window m = (ops, window', m')"
  obtains
    (drop_worst) "exists (hd window)" "saved_work (hd window) < 0"
      "ops = [(hd window, False)]" "window' = tl window" "m' = m - memory_cost (hd window)"
  | (skip_worst) "\<not> exists (hd window)" "ops = []" "window' = tl window" "m' = m"
  | (skip_best) "ops = []" "window' = butlast window" "m' = m"
      "\<not> (saved_work (hd window) < 0 \<and> - saved_work (hd window) > saved_work (last window))"
  | (swap) n where "n < length window" "\<not> exists (last window)"
      "ops = map (\<lambda>e. (e, False)) (filter exists (take n window)) @ [(last window, True)]"
      "window' = drop n (butlast window)"
      "m' = m - sum_list (map memory_cost (filter exists (take n window))) + memory_cost (last window)"
      "memory_cost (last window) + m - b \<le> sum_list (map memory_cost (filter exists (take n window)))"
      "sum_list (map saved_work (filter exists (take n window))) \<le> saved_work (last window)"
      "\<not> (saved_work (hd window) < 0 \<and> - saved_work (hd window) > saved_work (last window))"
proof -
  let ?w = "hd window" and ?l = "last window"
  show thesis
  proof (cases "saved_work ?w < 0 \<and> - saved_work ?w > saved_work ?l")
    case True
    with assms show thesis
      by (cases "exists ?w") (auto simp: select_step_def Let_def intro: drop_worst skip_worst)
  next
    case nb: False
    show thesis
    proof (cases "exists ?l")
      case True
      with nb assms show thesis
        by (auto simp: select_step_def Let_def intro: skip_best)
    next
      case ne: False
      obtain sd om n where sac: "sacrifice (memory_cost ?l + m - b) (butlast window) 0 0 0 = (sd, om, n)"
        by (cases "sacrifice (memory_cost ?l + m - b) (butlast window) 0 0 0") auto
      from sacrifice_count [OF sac] assms(1) have n: "n < length window" "n \<le> length (butlast window)"
        by (auto simp: less_Suc_eq_le [symmetric])
      then have tk: "take n (butlast window) = take n window"
        by (simp add: take_butlast)
      from sacrifice_sums [OF sac] tk
      have sums: "sd = sum_list (map saved_work (filter exists (take n window)))"
        "om = sum_list (map memory_cost (filter exists (take n window)))"
        by simp_all
      show thesis
      proof (cases "om \<ge> memory_cost ?l + m - b \<and> sd \<le> saved_work ?l")
        case True
        with nb ne sac assms(2) sums n show thesis
          by (intro swap [of n]) (auto simp: select_step_def Let_def)
      next
        case False
        with nb ne sac assms(2) show thesis
          by (intro skip_best) (auto simp: select_step_def Let_def)
      qed
    qed
  qed
qed

subsection \<open>Effect on the live index set\<close>












subsection \<open>The whole loop\<close>

lemma select_loop_unfold:
  assumes "window \<noteq> []" "select_step b window m = (ops, window', m')"
  shows "select_loop b window m = ops @ select_loop b window' m'"
  using assms by (subst select_loop.simps) simp

lemma select_loop_Nil: "select_loop b [] m = []"
  by (subst select_loop.simps) simp







subsection \<open>Budget safety\<close>




subsection \<open>Monotonicity\<close>


subsection \<open>Order of the planned operations\<close>











subsection \<open>Order among tied choices\<close>



subsection \<open>The selector does not read \<^verbatim>\<open>invalidates\<close>\<close>









subsection \<open>A second pass\<close>

lemma ascending_std_sort: "ascending (std_sort evaluations)"
  using sorted_sort_key [of saved_work evaluations]
  by (simp add: std_sort_def sorted_map)

lemma ascending_hd_last:
  assumes "ascending window" "window \<noteq> []"
  shows "saved_work (hd window) \<le> saved_work (last window)"
proof (cases window)
  case Nil
  with assms show ?thesis by simp
next
  case (Cons x xs)
  show ?thesis
  proof (cases "xs = []")
    case True
    with Cons show ?thesis by simp
  next
    case False
    then have "last xs \<in> set xs" by simp
    with assms(1) Cons False show ?thesis by auto
  qed
qed

lemma ascending_le_last:
  assumes "ascending window" "e \<in> set window"
  shows "saved_work e \<le> saved_work (last window)"
proof -
  from assms(2) have ne: "window \<noteq> []" by auto
  then have w: "window = butlast window @ [last window]" by simp
  show ?thesis
  proof (cases "e \<in> set (butlast window)")
    case True
    from assms(1) have "ascending (butlast window @ [last window])" using w by simp
    with True show ?thesis by (auto simp: sorted_wrt_append)
  next
    case False
    with assms(2) w have "e = last window"
      by (metis Un_iff empty_iff empty_set set_ConsD set_append)
    then show ?thesis by simp
  qed
qed

lemma ascending_step:
  assumes "window \<noteq> []" "select_step b window m = (ops, window', m')" "ascending window"
  shows "ascending window'"
  using assms(1,2)
proof (cases rule: select_step_cases)
  case drop_worst
  with assms(1,3) show ?thesis by (cases window) auto
next
  case skip_worst
  with assms(1,3) show ?thesis by (cases window) auto
next
  case skip_best
  with assms(3) show ?thesis by (simp add: butlast_conv_take sorted_wrt_take)
next
  case (swap n)
  with assms(3) show ?thesis by (simp add: butlast_conv_take sorted_wrt_take sorted_wrt_drop)
qed

lemma created_nonneg:
  assumes "ascending window" "(e, True) \<in> set (select_loop b window m)"
  shows "0 \<le> saved_work e"
  using assms
proof (induction "length window" arbitrary: window m rule: less_induct)
  case less
  show ?case
  proof (cases "window = []")
    case True
    with less.prems show ?thesis by (simp add: select_loop_Nil)
  next
    case False
    obtain ops window' m' where step: "select_step b window m = (ops, window', m')"
      by (cases "select_step b window m") auto
    note unfold = select_loop_unfold [OF False step]
    note IH = less.hyps [OF select_step_shrinks [OF False step] ascending_step [OF False step less.prems(1)]]
    from less.prems(2) have mem: "(e, True) \<in> set ops \<or> (e, True) \<in> set (select_loop b window' m')"
      by (simp add: unfold)
    from False step show ?thesis
    proof (cases rule: select_step_cases)
      case (swap n)
      show ?thesis
      proof (cases "(e, True) \<in> set ops")
        case True
        with swap(3) have "e = last window" by auto
        with swap(8) ascending_hd_last [OF less.prems(1) False] show ?thesis by auto
      next
        case False
        with mem IH show ?thesis by blast
      qed
    qed (use mem IH in auto)
  qed
qed

lemma negative_deleted:
  assumes "ascending window" "e \<in> set window" "exists e" "saved_work e < 0"
  shows "(e, False) \<in> set (select_loop b window m)"
  using assms(1,2)
proof (induction "length window" arbitrary: window m rule: less_induct)
  case less
  from less.prems(2) have nonempty: "window \<noteq> []" by auto
  obtain ops window' m' where step: "select_step b window m = (ops, window', m')"
    by (cases "select_step b window m") auto
  note unfold = select_loop_unfold [OF nonempty step]
  note IH = less.hyps [OF select_step_shrinks [OF nonempty step] ascending_step [OF nonempty step less.prems(1)]]
  from nonempty have w: "window = hd window # tl window" by simp
  from nonempty step show ?case
  proof (cases rule: select_step_cases)
    case drop_worst
    show ?thesis
    proof (cases "e = hd window")
      case True
      with drop_worst(3) show ?thesis by (simp add: unfold)
    next
      case False
      with less.prems(2) w have "e \<in> set (tl window)" by (metis set_ConsD)
      with IH drop_worst(4) show ?thesis by (simp add: unfold)
    qed
  next
    case skip_worst
    with assms(3) have "e \<noteq> hd window" by auto
    with less.prems(2) w have "e \<in> set (tl window)" by (metis set_ConsD)
    with IH skip_worst(3) show ?thesis by (simp add: unfold)
  next
    case skip_best
    have "e \<in> set (butlast window)"
    proof (rule ccontr)
      assume "e \<notin> set (butlast window)"
      with less.prems(2) nonempty have "e = last window"
        by (metis Un_iff append_butlast_last_id empty_iff empty_set set_ConsD set_append)
      with assms(4) ascending_hd_last [OF less.prems(1) nonempty] skip_best(4)
      show False by auto
    qed
    with IH skip_best(2) show ?thesis by (simp add: unfold)
  next
    case (swap n)
    from swap(2) assms(3) have "e \<noteq> last window" by auto
    with less.prems(2) nonempty have "e \<in> set (butlast window)"
      by (metis Un_iff append_butlast_last_id empty_iff empty_set set_ConsD set_append)
    moreover from swap(1) have "take n window = take n (butlast window)"
      by (simp add: take_butlast)
    ultimately have "e \<in> set (take n window) \<or> e \<in> set (drop n (butlast window))"
      by (metis Un_iff append_take_drop_id set_append)
    then show ?thesis
    proof
      assume "e \<in> set (take n window)"
      with assms(3) swap(3) show ?thesis by (simp add: unfold)
    next
      assume "e \<in> set (drop n (butlast window))"
      with IH swap(4) show ?thesis by (simp add: unfold)
    qed
  qed
qed

lemma settled:
  assumes "\<forall>e\<in>set window. exists e \<and> 0 \<le> saved_work e"
  shows "select_loop b window m = []"
  using assms
proof (induction window arbitrary: m rule: rev_induct)
  case Nil
  then show ?case by (simp add: select_loop_Nil)
next
  case (snoc x xs)
  then have "select_step b (xs @ [x]) m = ([], xs, m)"
    by (cases xs) (auto simp: select_step_def Let_def)
  from select_loop_unfold [OF _ this] snoc show ?case by simp
qed

text \<open>
  C3, as stated: a second call on the vector describing the configuration after the
  first call's operations returns no operations. It fails: with a budget of 6 MiB filled
  by two live indexes and two candidates, the first pass rejects the better candidate
  (freeing its 5 MiB would cost saved work 3 + 4 > 6) and swaps the worst live index for
  the other candidate; in the second pass the rejected candidate needs only the index
  with saved work 4 to go, and is accepted.
\<close>

theorem second_pass_counterexample:
  "post_apply two_passes (planned_operations two_passes 6)
     = [choice 1 GroupKey True 4 5, choice 2 GroupKey True 5 1, choice 3 GroupKey False 6 5]
   \<and> select_indices (post_apply two_passes (planned_operations two_passes 6)) 6
     = [\<lparr>column = \<lparr>table_name = ''t'', column_ids = [1]\<rparr>, create = False\<rparr>,
        \<lparr>column = \<lparr>table_name = ''t'', column_ids = [3]\<rparr>, create = True\<rparr>]"
  by (simp add: select_indices_def post_apply_def planned_operations_def std_sort_def
      select_loop.simps select_step_def two_passes_def choice_def)

text \<open>
  C3, amended: a second call with the same budget on the live indexes of the
  configuration after the first call's operations (each created index now an
  \<open>exists = True\<close> choice, each deleted index absent, the candidates that were not accepted
  left out) returns an empty operation list. Every index the first pass keeps or creates
  has non-negative saved work, so nothing is left to delete, and without candidates
  nothing is left to create.
\<close>

theorem second_pass_empty:
  "select_indices
     (filter exists (post_apply evaluations (planned_operations evaluations memory_budget)))
     memory_budget = []"
proof -
  let ?ops = "planned_operations evaluations memory_budget"
  let ?live = "filter exists (post_apply evaluations ?ops)"
  have nonneg: "0 \<le> saved_work e'" if e': "e' \<in> set ?live" for e'
  proof -
    from e' obtain e where e: "e \<in> set evaluations" "(e, False) \<notin> set ?ops"
      and e'_def: "e' = (if (e, True) \<in> set ?ops then e\<lparr>exists := True\<rparr> else e)"
      by (auto simp: post_apply_def)
    from e' have live: "exists e'" by simp
    from e(1) have nonempty: "evaluations \<noteq> []" by auto
    let ?m = "sum_list (map memory_cost (filter exists (std_sort evaluations)))"
    have ops: "?ops = select_loop memory_budget (std_sort evaluations) ?m"
      using nonempty by (simp add: planned_operations_def Let_def)
    show ?thesis
    proof (cases "(e, True) \<in> set ?ops")
      case True
      then have "0 \<le> saved_work e"
        unfolding ops by (rule created_nonneg [OF ascending_std_sort])
      with True e'_def show ?thesis by simp
    next
      case False
      with e'_def have "e' = e" by simp
      with live have "exists e" by simp
      have "\<not> saved_work e < 0"
      proof
        assume "saved_work e < 0"
        from e(1) have "e \<in> set (std_sort evaluations)" by (simp add: std_sort_def)
        from negative_deleted [OF ascending_std_sort this \<open>exists e\<close> \<open>saved_work e < 0\<close>]
        have "(e, False) \<in> set ?ops" unfolding ops .
        with e(2) show False by contradiction
      qed
      with \<open>e' = e\<close> show ?thesis by simp
    qed
  qed
  show ?thesis
  proof (cases "?live = []")
    case True
    then show ?thesis by (simp add: select_indices_def planned_operations_def)
  next
    case False
    have "\<forall>e\<in>set (std_sort ?live). exists e \<and> 0 \<le> saved_work e"
      using nonneg by (simp add: std_sort_def)
    from settled [OF this] False show ?thesis
      by (simp add: select_indices_def planned_operations_def Let_def)
  qed
qed

section \<open>Properties of the plan walkers\<close>

text \<open>
  C8: a predicate whose right side is not a literal, or which has no column reference
  rooted in a stored table, yields no access record and no error, and the walk goes on.
  The code does so for a predicate without a stored table behind its column reference,
  but not for one on a stored table whose right side is a column: for the plan of
  \<^verbatim>\<open>SELECT * FROM t WHERE col_0 = col_1\<close> the walk ends with \<^verbatim>\<open>boost::bad_get\<close>, in a debug
  build and in a release build.
\<close>

theorem column_comparison_raises:
  "inspect_lqp_operator True column_comparison 1 [] = Inl bad_get
   \<and> inspect_lqp_operator False column_comparison 1 [] = Inl bad_get"
  by (simp add: inspect_lqp_operator_def column_comparison_def lqp_inputs_def)

text \<open>
  A predicate whose column reference has no node behind it, or a node that is no stored
  table, is passed over: the walk continues with the rest of the queue and the inputs of
  the predicate, and the access records are unchanged.
\<close>

lemma unrooted_predicate_skipped:
  assumes "original_node lqp_ref = None
           \<or> (original_node lqp_ref = Some (OriginalOther t) \<and> t \<noteq> StoredTable)"
  shows "inspect_lqp_queue is_debug freq (PredicateNode lqp_ref cond v l r # queue) access_records
         = inspect_lqp_queue is_debug freq
             (queue @ lqp_inputs (PredicateNode lqp_ref cond v l r)) access_records"
  using assms by auto

text \<open>
  C6, as stated: a scan whose left input is a \<^verbatim>\<open>Validate\<close> on a \<^verbatim>\<open>GetTable\<close> is rejected with a
  fatal error that reaches the caller. It fails in two ways: \<^verbatim>\<open>_inspect_operator\<close> of
  \<^verbatim>\<open>tuning/base_index_evaluator.cpp\<close> records the access of exactly such a scan, and
  \<^verbatim>\<open>_inspect_pqp_operator\<close> rejects it with a \<^verbatim>\<open>DebugAssert\<close>, so that a build without
  \<^verbatim>\<open>DebugAssert\<close> passes the scan over without a record and without an error.
\<close>

theorem mvcc_scan_counterexample:
  "inspect_operator mvcc_scan 1 []
     = Some (Inr [\<lparr>AccessRecord.column_ref = \<lparr>table_name = ''t'', column_ids = [0]\<rparr>,
                   condition = Equals, compare_value = IntValue 4, query_frequency = 1\<rparr>])
   \<and> inspect_pqp_operator False mvcc_scan 1 [] = Inr []"
  by (simp add: inspect_operator_def inspect_operator_queue.simps inspect_pqp_operator_def
      mvcc_scan_def scan_record_def)

text \<open>
  C6, amended: when \<^verbatim>\<open>_inspect_pqp_operator\<close> takes from its queue a scan whose left input is
  a \<^verbatim>\<open>Validate\<close> (whatever it wraps), then in a build with \<^verbatim>\<open>DebugAssert\<close> the walk ends with
  the error ``Validation nodes are not supported'', which reaches the caller; in a build
  without it the scan contributes nothing and the walk continues with the rest of the
  queue.
\<close>

theorem mvcc_scan_rejected:
  "inspect_pqp_queue True freq (TableScan (Some (Validate v)) column_id cond right_parameter # queue)
     access_records
   = Inl (logic_error
       ''Validation nodes are not supported. Please run the pipeline without MVCC columns.'')
   \<and> inspect_pqp_queue False freq
       (TableScan (Some (Validate v)) column_id cond right_parameter # queue) access_records
     = inspect_pqp_queue False freq queue access_records"
  by simp

section \<open>Properties of the cache scan\<close>

text \<open>
  C9, as stated: with an opaque cache (not a GDFS cache) no exception reaches the caller.
  It fails for \<^verbatim>\<open>_inspect_query_cache\<close> of \<^verbatim>\<open>tuning/base_index_evaluator.cpp\<close>, whose
  \<^verbatim>\<open>Assert\<close> ``Expected GDFS Cache'' throws.
\<close>

theorem opaque_cache_counterexample:
  "inspect_query_cache_plans OtherCache = Some (Inl (logic_error ''Expected GDFS Cache''))"
  by (simp add: inspect_query_cache_plans_def)

lemma get_table_Inr_iff:
  "(\<exists>table. get_table storage name = Inr table) \<longleftrightarrow> name \<in> set (table_names storage)"
  by (auto simp: get_table_def table_names_def split: option.splits dest: map_of_SomeD
      simp: map_of_eq_None_iff [symmetric] rev_image_eqI)

lemma get_table_known:
  "name \<in> set (table_names storage) \<Longrightarrow> \<exists>table. get_table storage name = Inr table"
  by (simp add: get_table_Inr_iff)

lemma add_table_indexes_live:
  assumes "name \<in> set (table_names storage)" "list_all (live_choice storage) choices"
  shows "list_all (live_choice storage) (fst (add_table_indexes name infos (choices, [])))
         \<and> snd (add_table_indexes name infos (choices, [])) = []"
  using assms
  by (induction infos arbitrary: choices) (simp_all add: live_choice_def new_IndexChoice_def)

lemma add_existing_indexes_live:
  assumes "set names \<subseteq> set (table_names storage)" "list_all (live_choice storage) choices"
  shows "\<exists>existing. add_existing_indexes storage names (choices, []) = Inr (existing, [])
           \<and> list_all (live_choice storage) existing"
  using assms
proof (induction names arbitrary: choices)
  case Nil
  then show ?case by simp
next
  case (Cons name names)
  from Cons.prems(1) have known: "name \<in> set (table_names storage)" by simp
  then obtain table where table: "get_table storage name = Inr table"
    using get_table_known by blast
  obtain choices' rest where step: "add_table_indexes name (get_indexes table) (choices, []) = (choices', rest)"
    by (cases "add_table_indexes name (get_indexes table) (choices, [])") auto
  with add_table_indexes_live [OF known Cons.prems(2), of "get_indexes table"]
  have "list_all (live_choice storage) choices'" "rest = []" by simp_all
  with Cons.IH [of choices'] Cons.prems(1) table step show ?case by simp
qed

lemma evaluate_choices_live:
  assumes "list_all (live_choice storage) choices"
  shows "\<exists>evaluated. evaluate_choices storage model Map.empty choices = Inr evaluated
           \<and> list_all (\<lambda>c. exists c \<and> saved_work c = 0) evaluated"
  using assms
proof (induction choices)
  case Nil
  then show ?case by simp
next
  case (Cons c choices)
  from Cons.prems have c: "exists c" "table_name (column_ref c) \<in> set (table_names storage)"
    by (simp_all add: live_choice_def)
  from get_table_known [OF c(2)] obtain table
    where "get_table storage (table_name (column_ref c)) = Inr table" by blast
  with c(1) obtain e where e: "evaluate_choice storage model Map.empty c = Inr e"
    "exists e" "saved_work e = 0"
    by (simp add: evaluate_choice_def existing_memory_cost_def get_saved_work_def)
  from Cons.IH Cons.prems obtain rest
    where "evaluate_choices storage model Map.empty choices = Inr rest"
      "list_all (\<lambda>c. exists c \<and> saved_work c = 0) rest"
    by auto
  with e show ?case by simp
qed

lemma select_indices_settled:
  assumes "list_all (\<lambda>c. exists c \<and> saved_work c = 0) choices"
  shows "select_indices choices memory_budget = []"
proof (cases "choices = []")
  case True
  then show ?thesis by (simp add: select_indices_def planned_operations_def)
next
  case False
  from assms have "\<forall>e\<in>set (std_sort choices). exists e \<and> 0 \<le> saved_work e"
    by (simp add: std_sort_def list_all_iff)
  from settled [OF this] False show ?thesis
    by (simp add: select_indices_def planned_operations_def Let_def)
qed

lemma tuning_pass_without_workload:
  assumes "inspect_query_cache is_debug lqp_cache = Inr ([], warnings)"
  shows "tuning_pass is_debug storage model lqp_cache memory_budget = Inr ([], warnings)"
proof -
  have agg: "aggregate_access_records storage [] evaluator_setup = Inr ([], Map.empty)"
    by (simp add: aggregate_access_records_def evaluator_setup_def)
  from add_existing_indexes_live [of "table_names storage" storage "[]"]
  obtain existing where existing:
    "add_existing_indexes storage (table_names storage) ([], []) = Inr (existing, [])"
    "list_all (live_choice storage) existing"
    by auto
  from evaluate_choices_live [OF existing(2), of model] obtain evaluated
    where evaluated: "evaluate_choices storage model Map.empty existing = Inr evaluated"
      "list_all (\<lambda>c. exists c \<and> saved_work c = 0) evaluated"
    by auto
  have "evaluate is_debug storage model lqp_cache = Inr (evaluated, warnings)"
    by (simp add: evaluate_def assms agg existing(1) add_new_indexes_def evaluated(1))
  with select_indices_settled [OF evaluated(2)] show ?thesis
    by (simp add: tuning_pass_def)
qed

text \<open>
  C9, amended: for \<^verbatim>\<open>_inspect_query_cache\<close> of \<^verbatim>\<open>tuning/index/base_index_evaluator.cpp\<close>, when
  the cache is opaque or a GDFS cache without entries, one warning is logged, no access
  record is gathered, aggregation yields no new-index candidate and an empty saved-work
  map, no error is raised, and the tuning pass (evaluation, then selection) returns no
  operations, whatever the tables, their indexes and the budget.
\<close>

theorem no_workload:
  assumes "lqp_cache = OtherCache \<or> lqp_cache = GDFSCache []"
  shows "\<exists>warning.
           inspect_query_cache is_debug lqp_cache = Inr ([], [warning])
         \<and> aggregate_access_records storage [] evaluator_setup = Inr ([], evaluator_setup)
         \<and> tuning_pass is_debug storage model lqp_cache memory_budget = Inr ([], [warning])"
proof -
  from assms obtain warning where w: "inspect_query_cache is_debug lqp_cache = Inr ([], [warning])"
    by (auto simp: inspect_query_cache_def)
  moreover have "aggregate_access_records storage [] evaluator_setup = Inr ([], evaluator_setup)"
    by (simp add: aggregate_access_records_def)
  moreover note tuning_pass_without_workload [OF w]
  ultimately show ?thesis by blast
qed

theorem no_workload_witness:
  "inspect_query_cache True OtherCache
     = Inr ([], [''BaseIndexEvaluator can only analyze GDFSCache instances! Evaluations may be useless...''])
   \<and> tuning_pass True few_distinct per_row_and_value OtherCache 80
     = Inr ([], [''BaseIndexEvaluator can only analyze GDFSCache instances! Evaluations may be useless...''])"
proof -
  have "(OtherCache :: AbstractLQPNode AbstractCache) = OtherCache \<or> OtherCache = GDFSCache []"
    by simp
  from no_workload [OF this, of True few_distinct per_row_and_value 80]
  show ?thesis by (auto simp: inspect_query_cache_def)
qed

section \<open>Properties of the evaluator\<close>

subsection \<open>Saved work\<close>









subsection \<open>Predicted memory cost\<close>

text \<open>
  C5, as stated: the predicted cost is the per-chunk model value times the chunk count,
  with a distinct count smaller than the chunk count clamped to one distinct value per
  chunk. It fails: the code divides without clamping. For 100 rows and 3 distinct values
  in 10 chunks the model is asked for 10 rows and 0 distinct values per chunk (400 bytes
  in all with the model used here), not for 1 distinct value (480 bytes).
\<close>

theorem clamp_counterexample:
  "predict_memory_cost few_distinct per_row_and_value candidate
     = Inr (per_row_and_value GroupKey 10 0 4 * 10)
   \<and> per_row_and_value GroupKey 10 0 4 * 10 = 400
   \<and> per_row_and_value GroupKey 10 1 4 * 10 = 480"
  by (simp add: predict_memory_cost_def few_distinct_def per_row_and_value_def candidate_def
      new_IndexChoice_def get_table_def chunk_count_def Let_def)

text \<open>
  C5, amended: for a candidate on a known table with at least one chunk, whose first
  column has statistics and whose columns have a data type, the predicted memory cost is
  the per-chunk model value for (type, chunk rows, chunk distinct values, value bytes)
  times the chunk count, in \<^verbatim>\<open>uintptr_t\<close> arithmetic, where chunk rows and chunk distinct
  values are the row count and the distinct count divided by the chunk count, both
  rounded down; a distinct count smaller than the chunk count gives 0 distinct values
  per chunk.
\<close>

theorem predicted_memory_cost:
  assumes "get_table storage (table_name (column_ref index_evaluation)) = Inr table"
    and "column_ids (column_ref index_evaluation) = column_id # others"
    and "column_id < length (distinct_counts (table_statistics table))"
    and "sum_value_bytes table (column_ids (column_ref index_evaluation)) 0 = Inr value_bytes"
    and "chunk_count table \<noteq> 0"
  shows "predict_memory_cost storage model index_evaluation
         = Inr ((model (type index_evaluation)
                   (row_count table div chunk_count table)
                   (distinct_counts (table_statistics table) ! column_id div chunk_count table)
                   value_bytes
                 * chunk_count table) mod 2 ^ 64)"
  using assms by (simp add: predict_memory_cost_def Let_def)

theorem predicted_memory_cost_witness:
  "predict_memory_cost few_distinct per_row_and_value candidate
   = Inr ((per_row_and_value GroupKey (100 div 10) (3 div 10) 4 * 10) mod 2 ^ 64)"
proof -
  let ?table = "snd (hd few_distinct)"
  have 1: "get_table few_distinct (table_name (column_ref candidate)) = Inr ?table"
    by (simp add: few_distinct_def candidate_def new_IndexChoice_def get_table_def)
  have 2: "column_ids (column_ref candidate) = 0 # []"
    by (simp add: candidate_def new_IndexChoice_def)
  have 3: "0 < length (distinct_counts (table_statistics ?table))"
    by (simp add: few_distinct_def)
  have 4: "sum_value_bytes ?table (column_ids (column_ref candidate)) 0 = Inr 4"
    by (simp add: few_distinct_def candidate_def new_IndexChoice_def)
  have 5: "chunk_count ?table \<noteq> 0"
    by (simp add: few_distinct_def chunk_count_def)
  from predicted_memory_cost [OF 1 2 3 4 5, of per_row_and_value]
  show ?thesis
    by (simp add: few_distinct_def candidate_def new_IndexChoice_def chunk_count_def)
qed

end
